theory Spec2Isabelle
  imports Complex_Main "HOL-Library.AList"
begin

section \<open>Constants (arc/definitions.py)\<close>

definition NULL_COLOR :: int where
  "NULL_COLOR = 10"

definition MAX_DIST :: int where
  "MAX_DIST = 10000"

section \<open>The Object primitive\<close>

text \<open>
  Modelled from the spec: the class \<open>Object\<close> (arc/object.py) is not among the sources.
  The spec describes it by contract: a node with an anchor (row, column, colour), a
  content, and generator codes (one-letter key to integer) that expand it into a
  repeated/tiled grid; two Objects are equal iff their materialized grids and anchors
  match. The record keeps exactly that: the anchor, the untiled content \<open>cell\<close>, the
  codes, and whether the Object carries a generator (\<open>generating\<close>, the attribute that
  \<open>Scale.inv\<close> reads). The codes are read with a default of 0, as
  \<open>Template.compare_properties\<close> reads \<open>obj.codes[code]\<close> for every registered code. On an
  Object that carries a generator, a code \<open>V\<close> (resp. \<open>H\<close>) of value k repeats the
  content k + 1 times along the rows (resp. columns): this is the cell size
  \<open>shape[axis] // (codes[code] + 1)\<close> that \<open>Scale.inv\<close> derives, and the shapes the
  tests of \<open>Scale\<close> and \<open>Resize\<close> expect. An Object without generator is its content,
  whatever codes it is given: scaling is only meaningful on Objects that already carry a
  generator, and the tests expect \<open>Scale.act\<close> on a plain point to return an equal Object.
\<close>

type_synonym Grid = "int list list"

record Object =
  anchor :: "int \<times> int \<times> int"
  cell :: Grid
  codes :: "string \<Rightarrow> int"
  generating :: bool

definition row :: "Object \<Rightarrow> int" where
  "row obj = fst (anchor obj)"

definition col :: "Object \<Rightarrow> int" where
  "col obj = fst (snd (anchor obj))"

definition color :: "Object \<Rightarrow> int" where
  "color obj = snd (snd (anchor obj))"

definition loc :: "Object \<Rightarrow> int \<times> int" where
  "loc obj = (row obj, col obj)"

definition tile :: "int \<Rightarrow> int \<Rightarrow> Grid \<Rightarrow> Grid" where
  "tile v h g =
     concat (replicate (nat (v + 1)) (map (\<lambda>r. concat (replicate (nat (h + 1)) r)) g))"

definition grid :: "Object \<Rightarrow> Grid" where
  "grid obj =
     (if generating obj then tile (codes obj ''V'') (codes obj ''H'') (cell obj)
      else cell obj)"

definition n_cols :: "Grid \<Rightarrow> nat" where
  "n_cols g = (case g of [] \<Rightarrow> 0 | r # _ \<Rightarrow> length r)"

definition shape :: "Object \<Rightarrow> int \<times> int" where
  "shape obj = (int (length (grid obj)), int (n_cols (grid obj)))"

text \<open>
  Modelled from the spec: \<open>Object.from_grid(grid, anchor)\<close> builds an Object without
  generator whose materialized grid is the given one.
\<close>

definition from_grid :: "Grid \<Rightarrow> int \<times> int \<times> int \<Rightarrow> Object" where
  "from_grid g a = \<lparr>anchor = a, cell = g, codes = (\<lambda>_. 0), generating = False\<rparr>"

text \<open>
  Modelled from the spec: an Object built with generator codes, as
  \<open>Object(row, col, color, codes={"V": 4, "H": 4})\<close> in the tests, carries a generator
  that repeats its content.
\<close>

definition generated :: "Grid \<Rightarrow> int \<times> int \<times> int \<Rightarrow> (string \<Rightarrow> int) \<Rightarrow> Object" where
  "generated g a cs = \<lparr>anchor = a, cell = g, codes = cs, generating = True\<rparr>"

text \<open>
  Modelled from the spec: \<open>copy()\<close>, \<open>copy(anchor)\<close> and \<open>copy(codes=...)\<close> return a new
  Object with the named part replaced and everything else kept. New codes do not give a
  generator to an Object that has none.
\<close>

definition copy :: "Object \<Rightarrow> Object" where
  "copy obj = obj"

definition copy_anchor :: "Object \<Rightarrow> int \<times> int \<times> int \<Rightarrow> Object" where
  "copy_anchor obj a = obj\<lparr>anchor := a\<rparr>"

definition copy_codes :: "Object \<Rightarrow> (string \<Rightarrow> int) \<Rightarrow> Object" where
  "copy_codes obj cs = obj\<lparr>codes := cs\<rparr>"

text \<open>
  Modelled from the spec: Python's \<open>==\<close> on Objects holds iff their materialized grids and
  anchors match.
\<close>

definition obj_eq :: "Object \<Rightarrow> Object \<Rightarrow> bool" where
  "obj_eq a b \<longleftrightarrow> anchor a = anchor b \<and> grid a = grid b"

text \<open>
  Modelled from the spec: the attributes \<open>size\<close> and \<open>c_rank\<close> of \<open>Object\<close>.
  The points of an Object are its cells that are not transparent; \<open>size\<close> counts them and
  \<open>c_rank\<close> lists the colours present with their counts, the most frequent first (equal
  counts by colour, so that the ranking depends on the colours only, not on the order in
  which the cells are visited).
\<close>

definition cell_colors :: "Object \<Rightarrow> int list" where
  "cell_colors obj = filter (\<lambda>c. c \<noteq> NULL_COLOR) (concat (grid obj))"

definition size_obj :: "Object \<Rightarrow> nat" where
  "size_obj obj = length (cell_colors obj)"

definition c_rank :: "Object \<Rightarrow> (int \<times> nat) list" where
  "c_rank obj =
     (let cs = cell_colors obj
      in sort_key (\<lambda>p. - int (snd p)) (map (\<lambda>c. (c, count_list cs c)) (sort (remdups cs))))"

section \<open>The Action algebra (arc/actions.py)\<close>

subsection \<open>Colour\<close>

definition Paint_act :: "Object \<Rightarrow> int \<Rightarrow> Object" where
  "Paint_act obj c =
     (if c = NULL_COLOR then copy obj else copy_anchor obj (row obj, col obj, c))"

subsection \<open>Location\<close>

definition Translate_act :: "Object \<Rightarrow> int \<Rightarrow> int \<Rightarrow> Object" where
  "Translate_act obj dr dc =
     (case anchor obj of (a_row, a_col, c) \<Rightarrow> copy_anchor obj (a_row + dr, a_col + dc, c))"

definition Zero_act :: "Object \<Rightarrow> Object" where
  "Zero_act obj = copy_anchor obj (0, 0, color obj)"

subsection \<open>Rotations and reflections\<close>

text \<open>
  \<open>np.rot90\<close> turns a matrix counter-clockwise by a quarter: the last column becomes the
  first row. \<open>np.flip(m, 0)\<close> reverses the order of the rows, \<open>np.flip(m, 1)\<close> reverses
  every row; numpy rejects an axis that a matrix does not have.
\<close>

definition rot90 :: "Grid \<Rightarrow> Grid" where
  "rot90 g = rev (transpose g)"

definition np_flip :: "Grid \<Rightarrow> int \<Rightarrow> Grid option" where
  "np_flip g axis =
     (if axis = 0 \<or> axis = - 2 then Some (rev g)
      else if axis = 1 \<or> axis = - 1 then Some (map rev g)
      else None)"

definition Rotate_act :: "Object \<Rightarrow> int \<Rightarrow> Object" where
  "Rotate_act obj num = from_grid ((rot90 ^^ nat num) (grid obj)) (anchor obj)"

text \<open>\<open>Flip.act\<close>; \<open>None\<close> is numpy's error on an axis out of bounds.\<close>

definition Flip_act :: "Object \<Rightarrow> int \<Rightarrow> Object option" where
  "Flip_act obj horizontal =
     map_option (\<lambda>g. from_grid g (anchor obj)) (np_flip (grid obj) horizontal)"

text \<open>\<open>VFlip.act\<close> and \<open>HFlip.act\<close> are \<open>Flip.act\<close> on the axes 0 and 1, where it succeeds.\<close>

definition VFlip_act :: "Object \<Rightarrow> Object" where
  "VFlip_act obj = from_grid (rev (grid obj)) (anchor obj)"

definition HFlip_act :: "Object \<Rightarrow> Object" where
  "HFlip_act obj = from_grid (map rev (grid obj)) (anchor obj)"

definition Orthogonal_act :: "Object \<Rightarrow> int \<Rightarrow> int \<Rightarrow> Object" where
  "Orthogonal_act obj reflection rotation =
     (let result = copy obj;
          result = (if reflection = 1 then VFlip_act result
                    else if reflection = 2 then HFlip_act result
                    else result)
      in if rotation > 0 then Rotate_act result rotation else result)"

text \<open>
  \<open>Orthogonal.act(obj, *args)\<close>: the tuple of arguments is unpacked, a missing argument
  takes its default 0, and more than two arguments are a TypeError (\<open>None\<close>).
\<close>

definition Orthogonal_act_args :: "Object \<Rightarrow> int list \<Rightarrow> Object option" where
  "Orthogonal_act_args obj args =
     (case args of
        [] \<Rightarrow> Some (Orthogonal_act obj 0 0)
      | [reflection] \<Rightarrow> Some (Orthogonal_act obj reflection 0)
      | [reflection, rotation] \<Rightarrow> Some (Orthogonal_act obj reflection rotation)
      | _ \<Rightarrow> None)"

text \<open>
  \<open>Orthogonal.inv\<close>. The loop over \<open>(cls, VFlip, HFlip)\<close> pairs each reflection with its
  \<open>o_arg\<close> (0, 1, 2); \<open>cls.act(left)\<close> is \<open>Orthogonal.act(left)\<close> with both defaults. The
  inner loop tries 1, 2 and 3 quarter turns. The first match returns.
\<close>

definition try_rotations :: "Object \<Rightarrow> Object \<Rightarrow> int list \<Rightarrow> int option" where
  "try_rotations reflected right cts = List.find (\<lambda>ct. obj_eq (Rotate_act reflected ct) right) cts"

fun try_reflections :: "Object \<Rightarrow> Object \<Rightarrow> ((Object \<Rightarrow> Object) \<times> int) list \<Rightarrow> int list" where
  "try_reflections left right [] = []"
| "try_reflections left right ((act, o_arg) # rest) =
     (let reflected = act left
      in if obj_eq reflected right then [o_arg, 0]
         else (case try_rotations reflected right [1, 2, 3] of
                 Some ct \<Rightarrow> [o_arg, ct]
               | None \<Rightarrow> try_reflections left right rest))"

definition Orthogonal_inv :: "Object \<Rightarrow> Object \<Rightarrow> int list" where
  "Orthogonal_inv left right =
     (if size_obj right = 1 \<or> size_obj left \<noteq> size_obj right \<or> c_rank left \<noteq> c_rank right
      then []
      else
        (let left = Zero_act left;
             right = Zero_act right
         in if obj_eq left right then []
            else try_reflections left right
                   [(\<lambda>obj. Orthogonal_act obj 0 0, 0), (VFlip_act, 1), (HFlip_act, 2)]))"

subsection \<open>Deformations\<close>

definition Scale_act :: "Object \<Rightarrow> int \<Rightarrow> int \<Rightarrow> Object" where
  "Scale_act obj vertical horizontal =
     (let updated_codes = codes obj;
          updated_codes = (if vertical > 0 then updated_codes(''V'' := vertical - 1)
                           else updated_codes);
          updated_codes = (if horizontal > 0 then updated_codes(''H'' := horizontal - 1)
                           else updated_codes)
      in copy_codes obj updated_codes)"

text \<open>
  \<open>Scale.inv\<close>. The result is the tuple of arguments (empty when no scaling is found);
  Python's \<open>//\<close> and \<open>%\<close> raise ZeroDivisionError on a divisor 0. One axis gives an
  argument, or nothing when the shapes are incommensurate.
\<close>

datatype error = ZeroDivisionError

definition Scale_inv_axis :: "int \<Rightarrow> int \<Rightarrow> int \<Rightarrow> error + int option" where
  "Scale_inv_axis left_extent code_value right_extent =
     (if left_extent = right_extent then Inr (Some 0)
      else if code_value + 1 = 0 then Inl ZeroDivisionError
      else
        (let cell_size = left_extent div (code_value + 1)
         in if cell_size = 0 then Inl ZeroDivisionError
            else if right_extent mod cell_size \<noteq> 0 then Inr None
            else Inr (Some (right_extent div cell_size))))"

definition Scale_inv :: "Object \<Rightarrow> Object \<Rightarrow> error + int list" where
  "Scale_inv left right =
     (if \<not> generating left \<and> \<not> generating right then Inr []
      else
        (case Scale_inv_axis (fst (shape left)) (codes left ''V'') (fst (shape right)) of
           Inl e \<Rightarrow> Inl e
         | Inr None \<Rightarrow> Inr []
         | Inr (Some vertical) \<Rightarrow>
             (case Scale_inv_axis (snd (shape left)) (codes left ''H'') (snd (shape right)) of
                Inl e \<Rightarrow> Inl e
              | Inr None \<Rightarrow> Inr []
              | Inr (Some horizontal) \<Rightarrow>
                  if vertical = 0 \<and> horizontal = 0 then Inr [] else Inr [vertical, horizontal])))"

definition Resize_act :: "Object \<Rightarrow> Object \<Rightarrow> Object" where
  "Resize_act obj secondary =
     (let result = copy obj;
          result = (if fst (shape obj) \<noteq> fst (shape secondary)
                    then Scale_act result (fst (shape secondary)) 0 else result)
      in if snd (shape obj) \<noteq> snd (shape secondary)
         then Scale_act result 0 (snd (shape secondary)) else result)"

text \<open>
  The assertion of \<open>test_orthogonal\<close>:
  \<open>transformed == Orthogonal.act(obj, *Orthogonal.inv(obj, transformed))\<close>.
\<close>

definition inv_roundtrip :: "Object \<Rightarrow> Object \<Rightarrow> bool" where
  "inv_roundtrip obj transformed =
     (case Orthogonal_act_args obj (Orthogonal_inv obj transformed) of
        Some result \<Rightarrow> obj_eq transformed result
      | None \<Rightarrow> False)"

definition grid3 :: Grid where
  "grid3 = [[1, 2, 3], [4, 5, 6], [7, 8, 9]]"

section \<open>The comparisons (arc/comparisons.py)\<close>

text \<open>
  A transform is a Python dict from action code to argument, kept as an association list;
  \<open>transform[k] = v\<close> is \<open>AList.update k v transform\<close>. A Python set of colours is kept
  as a list without duplicates: \<open>!=\<close> compares the elements, \<open>len\<close> is the length, and
  \<open>list(c)[0]\<close> is read only from a set of one element.
\<close>

type_synonym Transform = "(string \<times> int) list"

definition color_set :: "Object \<Rightarrow> int list" where
  "color_set obj = remdups (map fst (c_rank obj))"

definition get_color_diff :: "Object \<Rightarrow> Object \<Rightarrow> int \<times> Transform" where
  "get_color_diff left right =
     (let dist = 0;
          transform = [];
          c1 = color_set left;
          c2 = color_set right
      in if set c1 \<noteq> set c2
         then (if length c1 = 1 \<and> length c2 = 1
               then (dist + 2, AList.update ''c'' (hd c1) transform)
               else (MAX_DIST, transform))
         else (dist, transform))"

definition get_translation :: "Object \<Rightarrow> Object \<Rightarrow> int \<times> Transform" where
  "get_translation left right =
     (let dist = 0;
          transform = [];
          (r1, c1) = loc left;
          (r2, c2) = loc right
      in if r1 = r2 \<and> c1 = c2 then (dist, transform)
         else if r1 = 0 \<and> c1 = 0 then (dist + 1, AList.update ''z'' 0 transform)
         else if r2 \<noteq> r1 then
           (if r1 = 0 then (dist + 1, AList.update ''j'' 0 transform)
            else (dist + 2, AList.update ''w'' (r1 - r2) transform))
         else if c2 \<noteq> c1 then
           (if c1 = 0 then (dist + 1, AList.update ''j'' 1 transform)
            else (dist + 2, AList.update ''s'' (c1 - c2) transform))
         else (dist, transform))"

section \<open>The decomposition search (arc/board.py)\<close>

text \<open>
  A Board owns its representation \<open>rep\<close>, the queue \<open>proc_q\<close> (a deque: its left end is
  the head of the list) and the \<open>bank\<close>. The type of the objects is a parameter, and so
  are the operations of \<open>Object\<close> the Board calls, \<open>props\<close> and \<open>flatten\<close>, and the
  candidate generator \<open>_decomposition\<close>, which runs the Process plugins (arc/processes.py,
  not among the sources) and does not touch the Board.
\<close>

record 'o Board =
  rep :: 'o
  proc_q :: "'o list"
  bank :: "'o list"

text \<open>\<open>Board.__init__\<close>: the root object is the representation and the only queue entry.\<close>

definition Board_init :: "'o \<Rightarrow> 'o Board" where
  "Board_init root_obj = \<lparr>rep = root_obj, proc_q = [root_obj], bank = []\<rparr>"

fun select_loop :: "('o \<Rightarrow> int) \<Rightarrow> ('o \<Rightarrow> 'o) \<Rightarrow> 'o list \<Rightarrow> int \<times> 'o \<Rightarrow> int \<times> 'o" where
  "select_loop props flatten [] (best_props, r) = (best_props, r)"
| "select_loop props flatten (obj # objs) (best_props, r) =
     (if props obj < best_props
      then select_loop props flatten objs (props obj, flatten obj)
      else select_loop props flatten objs (best_props, r))"

definition select_representation :: "('o \<Rightarrow> int) \<Rightarrow> ('o \<Rightarrow> 'o) \<Rightarrow> 'o Board \<Rightarrow> 'o Board" where
  "select_representation props flatten b =
     b\<lparr>rep := snd (select_loop props flatten (bank b @ proc_q b) (props (rep b), rep b))\<rparr>"

text \<open>
  One pass of the body of the loop of \<open>batch_decomposition\<close>, on a non-empty queue:
  \<open>process_item\<close> is the body up to the call of \<open>select_representation\<close>, which
  \<open>batch_item\<close> adds.
\<close>

definition process_item :: "('o \<Rightarrow> 'o) \<Rightarrow> ('o \<Rightarrow> 'o list) \<Rightarrow> 'o Board \<Rightarrow> 'o Board" where
  "process_item flatten decomposition b =
     (case proc_q b of
        [] \<Rightarrow> b
      | obj # rest \<Rightarrow>
          (let b = b\<lparr>proc_q := rest\<rparr>;
               new_objs = decomposition obj;
               b = (if new_objs = [] then b\<lparr>bank := bank b @ [flatten obj]\<rparr> else b)
           in b\<lparr>proc_q := proc_q b @ new_objs\<rparr>))"

definition batch_item ::
  "('o \<Rightarrow> int) \<Rightarrow> ('o \<Rightarrow> 'o) \<Rightarrow> ('o \<Rightarrow> 'o list) \<Rightarrow> 'o Board \<Rightarrow> 'o Board" where
  "batch_item props flatten decomposition b =
     select_representation props flatten (process_item flatten decomposition b)"

function batch_loop ::
  "('o \<Rightarrow> int) \<Rightarrow> ('o \<Rightarrow> 'o) \<Rightarrow> ('o \<Rightarrow> 'o list) \<Rightarrow> int \<Rightarrow> int \<Rightarrow> 'o Board \<Rightarrow> int \<times> 'o Board" where
  "batch_loop props flatten decomposition batch ct b =
     (if proc_q b \<noteq> [] \<and> ct < batch
      then batch_loop props flatten decomposition batch (ct + 1)
             (batch_item props flatten decomposition b)
      else (ct, b))"
  by pat_completeness auto
termination
  by (relation "measure (\<lambda>(props, flatten, decomposition, batch, ct, b). nat (batch - ct))") auto

declare batch_loop.simps [simp del]

definition batch_decomposition ::
  "('o \<Rightarrow> int) \<Rightarrow> ('o \<Rightarrow> 'o) \<Rightarrow> ('o \<Rightarrow> 'o list) \<Rightarrow> int \<Rightarrow> 'o Board \<Rightarrow> 'o Board" where
  "batch_decomposition props flatten decomposition batch b =
     snd (batch_loop props flatten decomposition batch 0 b)"

text \<open>\<open>decompose\<close>: at most \<open>max_iter\<close> rounds, left early once the queue is empty.\<close>

fun decompose_rounds ::
  "('o \<Rightarrow> int) \<Rightarrow> ('o \<Rightarrow> 'o) \<Rightarrow> ('o \<Rightarrow> 'o list) \<Rightarrow> int \<Rightarrow> nat \<Rightarrow> 'o Board \<Rightarrow> 'o Board" where
  "decompose_rounds props flatten decomposition batch 0 b = b"
| "decompose_rounds props flatten decomposition batch (Suc n) b =
     (let b = batch_decomposition props flatten decomposition batch b
      in if proc_q b = [] then b
         else decompose_rounds props flatten decomposition batch n b)"

definition decompose ::
  "('o \<Rightarrow> int) \<Rightarrow> ('o \<Rightarrow> 'o) \<Rightarrow> ('o \<Rightarrow> 'o list) \<Rightarrow> int \<Rightarrow> int \<Rightarrow> 'o Board \<Rightarrow> 'o Board" where
  "decompose props flatten decomposition batch max_iter b =
     select_representation props flatten
       (decompose_rounds props flatten decomposition batch (nat max_iter) b)"

text \<open>
  \<open>find_closest\<close>. The class \<open>ObjectDelta\<close> is not among the sources: its constructor
  (with the default comparisons) and its attribute \<open>dist\<close> are parameters. A threshold of
  \<open>None\<close> accepts every match.
\<close>

fun closest_loop :: "('d \<Rightarrow> int) \<Rightarrow> ('o \<Rightarrow> 'd) \<Rightarrow> 'd \<Rightarrow> 'o list \<Rightarrow> 'd" where
  "closest_loop dist_of mk match [] = match"
| "closest_loop dist_of mk match (source # rest) =
     (let delta = mk source
      in closest_loop dist_of mk (if dist_of delta < dist_of match then delta else match) rest)"

definition find_closest ::
  "('o \<Rightarrow> 'o \<Rightarrow> 'd) \<Rightarrow> ('d \<Rightarrow> int) \<Rightarrow> 'o \<Rightarrow> 'o list \<Rightarrow> real option \<Rightarrow> 'd option" where
  "find_closest ObjectDelta dist_of obj inventory threshold =
     (case inventory of
        [] \<Rightarrow> None
      | first # rest \<Rightarrow>
          (let match = closest_loop dist_of (ObjectDelta obj) (ObjectDelta obj first) rest
           in case threshold of
                None \<Rightarrow> Some match
              | Some t \<Rightarrow> if real_of_int (dist_of match) > t then None else Some match))"

section \<open>The template (arc/template.py)\<close>

text \<open>A property of a StructureDef holds a number or the marker \<open>?\<close>.\<close>

datatype PropValue = IntVal int | Unknown

datatype StructureDef =
  StructureDef (sd_props: "(string \<times> PropValue) list") (children: "StructureDef list")

text \<open>
  Python's \<open>xs[i]\<close>: a negative index counts from the end, and an index outside
  \<open>-len(xs) .. len(xs) - 1\<close> raises IndexError (\<open>None\<close>).
\<close>

definition list_item :: "'a list \<Rightarrow> int \<Rightarrow> 'a option" where
  "list_item xs i =
     (if 0 \<le> i \<and> i < int (length xs) then Some (xs ! nat i)
      else if i < 0 \<and> - int (length xs) \<le> i then Some (xs ! nat (int (length xs) + i))
      else None)"

text \<open>
  \<open>Template.get_base\<close>. The result carries the warnings logged, each with the path of its
  message. The \<open>except\<close> clause is inside the loop: after a warning the loop goes on with
  the next index.
\<close>

fun get_base_loop ::
  "int list \<Rightarrow> int list \<Rightarrow> StructureDef \<times> int list list \<Rightarrow> StructureDef \<times> int list list" where
  "get_base_loop base [] (node, warnings) = (node, warnings)"
| "get_base_loop base (child_idx # rest) (node, warnings) =
     (case list_item (children node) child_idx of
        Some child \<Rightarrow> get_base_loop base rest (child, warnings)
      | None \<Rightarrow> get_base_loop base rest (node, warnings @ [base]))"

definition get_base :: "int list \<Rightarrow> StructureDef \<Rightarrow> StructureDef \<times> int list list" where
  "get_base base root_node =
     (if base = [] then (root_node, []) else get_base_loop base base (root_node, []))"

text \<open>
  The reading of the specification, for comparison: the walk along the path stops at the
  first child index that is out of range and returns the node reached before it.
\<close>

fun last_reached :: "int list \<Rightarrow> StructureDef \<Rightarrow> StructureDef" where
  "last_reached [] node = node"
| "last_reached (child_idx # rest) node =
     (case list_item (children node) child_idx of
        Some child \<Rightarrow> last_reached rest child
      | None \<Rightarrow> node)"


section \<open>Properties of the actions\<close>

lemma Flip_act_axis0: "Flip_act obj 0 = Some (VFlip_act obj)"
  by (simp add: Flip_act_def VFlip_act_def np_flip_def)

lemma Flip_act_axis1: "Flip_act obj 1 = Some (HFlip_act obj)"
  by (simp add: Flip_act_def HFlip_act_def np_flip_def)

text \<open>
  C9: painting with the NULL_COLOR sentinel (10) returns an unchanged copy of the Object:
  the same anchor (location and colour), the same content and codes, hence the same grid.
\<close>

theorem Paint_act_null_color:
  "Paint_act obj 10 = obj \<and> loc (Paint_act obj NULL_COLOR) = loc obj
   \<and> color (Paint_act obj NULL_COLOR) = color obj \<and> grid (Paint_act obj NULL_COLOR) = grid obj
   \<and> obj_eq (Paint_act obj NULL_COLOR) obj"
  by (simp add: Paint_act_def NULL_COLOR_def copy_def obj_eq_def)

subsection \<open>Inverting the orthogonal group on the 3x3 grid\<close>

lemmas orthogonal_eval =
  inv_roundtrip_def Orthogonal_act_args_def Orthogonal_inv_def Orthogonal_act_def
  try_rotations_def Rotate_act_def VFlip_act_def HFlip_act_def Zero_act_def
  size_obj_def c_rank_def cell_colors_def grid_def tile_def from_grid_def
  copy_def copy_anchor_def color_def obj_eq_def rot90_def grid3_def NULL_COLOR_def
  numeral_eq_Suc

lemma roundtrip_r90:
  "inv_roundtrip (from_grid grid3 a) (from_grid (rot90 grid3) a)"
  by (simp add: orthogonal_eval)

lemma roundtrip_r180:
  "inv_roundtrip (from_grid grid3 a) (from_grid (rot90 (rot90 grid3)) a)"
  by (simp add: orthogonal_eval)

lemma roundtrip_r270:
  "inv_roundtrip (from_grid grid3 a) (from_grid (rot90 (rot90 (rot90 grid3))) a)"
  by (simp add: orthogonal_eval)

lemma roundtrip_vflip:
  "inv_roundtrip (from_grid grid3 a) (from_grid (rev grid3) a)"
  by (simp add: orthogonal_eval)

lemma roundtrip_hflip:
  "inv_roundtrip (from_grid grid3 a) (from_grid (map rev grid3) a)"
  by (simp add: orthogonal_eval)

lemma roundtrip_diag1:
  "inv_roundtrip (from_grid grid3 a) (from_grid (rev (rot90 grid3)) a)"
  by (simp add: orthogonal_eval)

lemma roundtrip_diag2:
  "inv_roundtrip (from_grid grid3 a) (from_grid (map rev (rot90 grid3)) a)"
  by (simp add: orthogonal_eval)

lemma roundtrip_vflip_r90:
  "inv_roundtrip (from_grid grid3 a) (from_grid (rot90 (rev grid3)) a)"
  by (simp add: orthogonal_eval)

lemma roundtrip_hflip_r90:
  "inv_roundtrip (from_grid grid3 a) (from_grid (rot90 (map rev grid3)) a)"
  by (simp add: orthogonal_eval)

text \<open>
  C1: for the Object of the grid [[1,2,3],[4,5,6],[7,8,9]] (at any anchor) and each of its
  seven non-identity orthogonal images (built as the tests build them: quarter turns by
  \<open>rot90\<close>, flips of the rows and of the columns, and the two diagonal reflections, given
  both as a flip of the quarter turn and as a quarter turn of a flip),
  \<open>Orthogonal.act(obj, *Orthogonal.inv(obj, transformed))\<close> equals \<open>transformed\<close>.
\<close>

theorem Orthogonal_inv_act_roundtrip:
  "inv_roundtrip (from_grid grid3 a) (from_grid (rot90 grid3) a)
   \<and> inv_roundtrip (from_grid grid3 a) (from_grid (rot90 (rot90 grid3)) a)
   \<and> inv_roundtrip (from_grid grid3 a) (from_grid (rot90 (rot90 (rot90 grid3))) a)
   \<and> inv_roundtrip (from_grid grid3 a) (from_grid (rev grid3) a)
   \<and> inv_roundtrip (from_grid grid3 a) (from_grid (map rev grid3) a)
   \<and> inv_roundtrip (from_grid grid3 a) (from_grid (rev (rot90 grid3)) a)
   \<and> inv_roundtrip (from_grid grid3 a) (from_grid (map rev (rot90 grid3)) a)
   \<and> inv_roundtrip (from_grid grid3 a) (from_grid (rot90 (rev grid3)) a)
   \<and> inv_roundtrip (from_grid grid3 a) (from_grid (rot90 (map rev grid3)) a)"
  by (simp add: roundtrip_r90 roundtrip_r180 roundtrip_r270 roundtrip_vflip roundtrip_hflip
      roundtrip_diag1 roundtrip_diag2 roundtrip_vflip_r90 roundtrip_hflip_r90)

subsection \<open>Scaling and resizing\<close>

lemma length_tile: "length (tile v h g) = nat (v + 1) * length g"
  by (simp add: tile_def length_concat sum_list_replicate)

lemma n_cols_replicate_rows:
  "n_cols (concat (replicate n rows)) = (if n = 0 \<or> rows = [] then 0 else n_cols rows)"
  by (cases n; cases rows) (simp_all add: n_cols_def)

lemma n_cols_map_row:
  "n_cols (map (\<lambda>r. concat (replicate k r)) g) = k * n_cols g"
  by (cases g) (simp_all add: n_cols_def length_concat sum_list_replicate)

lemma n_cols_tile:
  "n_cols (tile v h g) = (if nat (v + 1) = 0 \<or> g = [] then 0 else nat (h + 1) * n_cols g)"
  unfolding tile_def by (simp add: n_cols_replicate_rows n_cols_map_row)

lemma shape_eq:
  "shape obj =
     (if generating obj
      then (int (nat (codes obj ''V'' + 1) * length (cell obj)),
            int (if nat (codes obj ''V'' + 1) = 0 \<or> cell obj = [] then 0
                 else nat (codes obj ''H'' + 1) * n_cols (cell obj)))
      else (int (length (cell obj)), int (n_cols (cell obj))))"
  by (simp add: shape_def grid_def length_tile n_cols_tile)

lemmas scale_eval =
  Scale_act_def Resize_act_def copy_def copy_codes_def generated_def from_grid_def n_cols_def

text \<open>
  The Object primitive as modelled agrees with the tests of the repository
  (tests/test_actions.py): scaling a point without generator returns an equal Object; a
  point with codes \<open>V\<close> and \<open>H\<close> of 4 is a 5x5 square at its anchor, which \<open>VScale\<close> by 3
  flattens to 3x5 and \<open>HScale\<close> by 3 thins to 5x3, and a second scale overwrites the
  first; resizing a 6x4 rectangle of a repeated point gives the 2x2, 6x2 and 4x4
  rectangles expected.
\<close>

lemma test_deformations_point:
  "obj_eq (Scale_act (from_grid [[1]] (1, 1, 1)) 2 0) (from_grid [[1]] (1, 1, 1))"
  by (simp add: obj_eq_def grid_def scale_eval)

lemma test_deformations_square:
  "shape (generated [[1]] (1, 1, 1) ((\<lambda>_. 0)(''H'' := 4, ''V'' := 4))) = (5, 5)
   \<and> shape (Scale_act (generated [[1]] (1, 1, 1) ((\<lambda>_. 0)(''H'' := 4, ''V'' := 4))) 3 0) = (3, 5)
   \<and> loc (Scale_act (generated [[1]] (1, 1, 1) ((\<lambda>_. 0)(''H'' := 4, ''V'' := 4))) 3 0) = (1, 1)
   \<and> shape (Scale_act (generated [[1]] (1, 1, 1) ((\<lambda>_. 0)(''H'' := 4, ''V'' := 4))) 0 3) = (5, 3)
   \<and> obj_eq
        (Scale_act (Scale_act (generated [[1]] (1, 1, 1) ((\<lambda>_. 0)(''H'' := 4, ''V'' := 4))) 2 0)
           5 0)
        (generated [[1]] (1, 1, 1) ((\<lambda>_. 0)(''H'' := 4, ''V'' := 4)))"
  by (simp add: shape_eq obj_eq_def grid_def loc_def row_def col_def scale_eval)

lemma test_resize:
  "obj_eq
     (Resize_act (generated [[10]] (0, 0, 10) ((\<lambda>_. 0)(''V'' := 5, ''H'' := 3)))
        (generated [[10]] (2, 1, 10) ((\<lambda>_. 0)(''V'' := 1, ''H'' := 1))))
     (generated [[10]] (0, 0, 10) ((\<lambda>_. 0)(''V'' := 1, ''H'' := 1)))
   \<and> obj_eq
     (Resize_act (generated [[10]] (0, 0, 10) ((\<lambda>_. 0)(''V'' := 5, ''H'' := 3)))
        (generated [[10]] (1, 5, 10) ((\<lambda>_. 0)(''V'' := 5, ''H'' := 1))))
     (generated [[10]] (0, 0, 10) ((\<lambda>_. 0)(''V'' := 5, ''H'' := 1)))
   \<and> obj_eq
     (Resize_act (generated [[10]] (0, 0, 10) ((\<lambda>_. 0)(''V'' := 5, ''H'' := 3)))
        (generated [[10]] (0, 0, 10) ((\<lambda>_. 0)(''V'' := 3, ''H'' := 3))))
     (generated [[10]] (0, 0, 10) ((\<lambda>_. 0)(''V'' := 3, ''H'' := 3)))"
  by (simp add: shape_eq obj_eq_def grid_def scale_eval)

text \<open>
  C5: \<open>Resize.act(a, b)\<close> does not always have the shape of \<open>b\<close>. Let \<open>a\<close> repeat the
  2x2 content [[1,0],[0,1]] twice along each axis (codes \<open>V\<close> and \<open>H\<close> of 1, shape 4x4)
  and let \<open>b\<close> be a point repeated to 6x6. \<open>Resize.act\<close> writes the extent 6 of \<open>b\<close> into
  the codes of \<open>a\<close> as a repeat count, and the result is 12x12. The sibling \<open>Scale.inv\<close>
  divides by the cell size: it finds the arguments (3, 3), with which \<open>Scale.act\<close> gives
  \<open>a\<close> the shape of \<open>b\<close>.
\<close>

theorem Resize_act_misses_cell_size:
  "shape (generated [[1, 0], [0, 1]] (0, 0, 10) ((\<lambda>_. 0)(''V'' := 1, ''H'' := 1))) = (4, 4)
   \<and> shape (generated [[2]] (0, 0, 2) ((\<lambda>_. 0)(''V'' := 5, ''H'' := 5))) = (6, 6)
   \<and> shape (Resize_act (generated [[1, 0], [0, 1]] (0, 0, 10) ((\<lambda>_. 0)(''V'' := 1, ''H'' := 1)))
              (generated [[2]] (0, 0, 2) ((\<lambda>_. 0)(''V'' := 5, ''H'' := 5)))) = (12, 12)
   \<and> Scale_inv (generated [[1, 0], [0, 1]] (0, 0, 10) ((\<lambda>_. 0)(''V'' := 1, ''H'' := 1)))
        (generated [[2]] (0, 0, 2) ((\<lambda>_. 0)(''V'' := 5, ''H'' := 5))) = Inr [3, 3]
   \<and> shape (Scale_act (generated [[1, 0], [0, 1]] (0, 0, 10) ((\<lambda>_. 0)(''V'' := 1, ''H'' := 1)))
              3 3) = (6, 6)
   \<and> shape (Resize_act (generated [[1, 0], [0, 1]] (0, 0, 10) ((\<lambda>_. 0)(''V'' := 1, ''H'' := 1)))
              (generated [[2]] (0, 0, 2) ((\<lambda>_. 0)(''V'' := 5, ''H'' := 5))))
       \<noteq> shape (generated [[2]] (0, 0, 2) ((\<lambda>_. 0)(''V'' := 5, ''H'' := 5)))"
  by (simp add: shape_eq Scale_inv_def Scale_inv_axis_def scale_eval)

section \<open>Properties of the comparisons\<close>

lemmas color_eval =
  color_set_def c_rank_def cell_colors_def grid_def tile_def from_grid_def NULL_COLOR_def

lemmas loc_eval =
  get_translation_def loc_def row_def col_def from_grid_def

text \<open>
  C3 (amended): when both Objects are monochrome and their colours differ,
  \<open>get_color_diff\<close> returns the distance 2 and a transform mapping the code \<open>c\<close> to the
  colour of the left Object; when the colour sets differ and a side has more than one
  colour, it returns MAX_DIST.
\<close>

theorem get_color_diff_left_color:
  "(color_set left = [cl] \<and> color_set right = [cr] \<and> cl \<noteq> cr
      \<longrightarrow> get_color_diff left right = (2, [(''c'', cl)]))
   \<and> (set (color_set left) \<noteq> set (color_set right)
        \<and> (1 < length (color_set left) \<or> 1 < length (color_set right))
      \<longrightarrow> get_color_diff left right = (MAX_DIST, []))"
  by (auto simp add: get_color_diff_def Let_def)

theorem get_color_diff_left_color_witness:
  "color_set (from_grid [[1]] (0, 0, 1)) = [1] \<and> color_set (from_grid [[2]] (0, 0, 2)) = [2]
   \<and> get_color_diff (from_grid [[1]] (0, 0, 1)) (from_grid [[2]] (0, 0, 2)) = (2, [(''c'', 1)])
   \<and> color_set (from_grid [[1, 2]] (0, 0, 1)) = [1, 2]
   \<and> color_set (from_grid [[3]] (0, 0, 3)) = [3]
   \<and> get_color_diff (from_grid [[1, 2]] (0, 0, 1)) (from_grid [[3]] (0, 0, 3)) = (MAX_DIST, [])"
  using get_color_diff_left_color [of "from_grid [[1]] (0, 0, 1)" 1 "from_grid [[2]] (0, 0, 2)" 2]
    get_color_diff_left_color [of "from_grid [[1, 2]] (0, 0, 1)" _ "from_grid [[3]] (0, 0, 3)" _]
  by (simp add: color_eval)

text \<open>
  C3 as stated fails: for a left Object of colour 1 and a right Object of colour 2 the
  transform maps \<open>c\<close> to 1, the colour of the left Object, not to 2.
\<close>

theorem get_color_diff_right_color_counterexample:
  "color_set (from_grid [[1]] (0, 0, 1)) = [1] \<and> color_set (from_grid [[2]] (0, 0, 2)) = [2]
   \<and> fst (get_color_diff (from_grid [[1]] (0, 0, 1)) (from_grid [[2]] (0, 0, 2))) = 2
   \<and> map_of (snd (get_color_diff (from_grid [[1]] (0, 0, 1)) (from_grid [[2]] (0, 0, 2)))) ''c''
       = Some 1
   \<and> map_of (snd (get_color_diff (from_grid [[1]] (0, 0, 1)) (from_grid [[2]] (0, 0, 2)))) ''c''
       \<noteq> Some 2"
  by (simp add: color_eval get_color_diff_def)

text \<open>
  C4 (amended): \<open>get_translation\<close> returns distance 0 and no transform when the locations
  match. When they differ, it charges 1 and proposes \<open>z\<close> if the left Object is at the
  origin (the move from right to left is a move to the origin), and it charges 1 and
  proposes \<open>j\<close> with the axis as argument if the move from right to left zeroes one axis
  and the other axis is untouched and not zero.
\<close>

theorem get_translation_special_moves:
  "(loc left = loc right \<longrightarrow> get_translation left right = (0, []))
   \<and> (loc left \<noteq> loc right \<and> loc left = (0, 0)
        \<longrightarrow> get_translation left right = (1, [(''z'', 0)]))
   \<and> (row left = 0 \<and> row right \<noteq> 0 \<and> col left = col right \<and> col left \<noteq> 0
        \<longrightarrow> get_translation left right = (1, [(''j'', 0)]))
   \<and> (col left = 0 \<and> col right \<noteq> 0 \<and> row left = row right \<and> row left \<noteq> 0
        \<longrightarrow> get_translation left right = (1, [(''j'', 1)]))"
  by (auto simp add: get_translation_def loc_def Let_def)

theorem get_translation_special_moves_witness:
  "get_translation (from_grid [[1]] (2, 3, 1)) (from_grid [[1]] (2, 3, 1)) = (0, [])
   \<and> get_translation (from_grid [[1]] (0, 0, 1)) (from_grid [[1]] (2, 3, 1)) = (1, [(''z'', 0)])
   \<and> get_translation (from_grid [[1]] (0, 3, 1)) (from_grid [[1]] (2, 3, 1)) = (1, [(''j'', 0)])
   \<and> get_translation (from_grid [[1]] (2, 0, 1)) (from_grid [[1]] (2, 3, 1)) = (1, [(''j'', 1)])"
  using get_translation_special_moves [of "from_grid [[1]] (2, 3, 1)" "from_grid [[1]] (2, 3, 1)"]
    get_translation_special_moves [of "from_grid [[1]] (0, 0, 1)" "from_grid [[1]] (2, 3, 1)"]
    get_translation_special_moves [of "from_grid [[1]] (0, 3, 1)" "from_grid [[1]] (2, 3, 1)"]
    get_translation_special_moves [of "from_grid [[1]] (2, 0, 1)" "from_grid [[1]] (2, 3, 1)"]
  by (simp add: loc_def row_def col_def from_grid_def)

text \<open>
  C4 as stated fails: from a left Object at (2, 3) to a right Object at the origin the
  displacement is a move to the origin, and to a right Object at (0, 3) it zeroes the row
  alone; both times the result is distance 2 and the raw offset under \<open>w\<close>.
\<close>

theorem get_translation_direction_counterexample:
  "loc (from_grid [[1]] (2, 3, 1)) = (2, 3) \<and> loc (from_grid [[1]] (0, 0, 1)) = (0, 0)
   \<and> get_translation (from_grid [[1]] (2, 3, 1)) (from_grid [[1]] (0, 0, 1)) = (2, [(''w'', 2)])
   \<and> get_translation (from_grid [[1]] (2, 3, 1)) (from_grid [[1]] (0, 0, 1)) \<noteq> (1, [(''z'', 0)])
   \<and> loc (from_grid [[1]] (0, 3, 1)) = (0, 3)
   \<and> get_translation (from_grid [[1]] (2, 3, 1)) (from_grid [[1]] (0, 3, 1)) = (2, [(''w'', 2)])"
  by (simp add: loc_eval)

text \<open>
  C10 (amended): when both the row and the column of the left Object differ from those of
  the right Object and the row of the left Object is not 0, \<open>get_translation\<close> returns
  the distance 2 and a transform with the single key \<open>w\<close>, mapped to
  \<open>left.row - right.row\<close>; the column displacement (key \<open>s\<close>) is absent.
\<close>

theorem get_translation_rows_and_columns:
  "row left \<noteq> row right \<and> col left \<noteq> col right \<and> row left \<noteq> 0
   \<Longrightarrow> get_translation left right = (2, [(''w'', row left - row right)])
       \<and> map_of (snd (get_translation left right)) ''s'' = None"
  by (auto simp add: get_translation_def loc_def Let_def)

theorem get_translation_rows_and_columns_witness:
  "loc (from_grid [[1]] (4, 5, 1)) = (4, 5) \<and> loc (from_grid [[1]] (3, 7, 1)) = (3, 7)
   \<and> get_translation (from_grid [[1]] (4, 5, 1)) (from_grid [[1]] (3, 7, 1)) = (2, [(''w'', 1)])
   \<and> map_of (snd (get_translation (from_grid [[1]] (4, 5, 1)) (from_grid [[1]] (3, 7, 1)))) ''s''
       = None"
  using get_translation_rows_and_columns [of "from_grid [[1]] (4, 5, 1)" "from_grid [[1]] (3, 7, 1)"]
  by (simp add: loc_def row_def col_def from_grid_def)

text \<open>
  C10 as stated fails: a left Object at (0, 5) is not at the origin and differs from a
  right Object at (3, 7) in row and column, yet the result is distance 1 and \<open>j\<close>.
\<close>

theorem get_translation_row_zero_counterexample:
  "loc (from_grid [[1]] (0, 5, 1)) = (0, 5) \<and> loc (from_grid [[1]] (3, 7, 1)) = (3, 7)
   \<and> get_translation (from_grid [[1]] (0, 5, 1)) (from_grid [[1]] (3, 7, 1)) = (1, [(''j'', 0)])
   \<and> get_translation (from_grid [[1]] (0, 5, 1)) (from_grid [[1]] (3, 7, 1)) \<noteq> (2, [(''w'', - 3)])"
  by (simp add: loc_eval)

section \<open>Properties of the decomposition search\<close>

subsection \<open>The representation never gets more expensive\<close>

lemma select_loop_bound:
  assumes "\<forall>obj. props (flatten obj) \<le> props obj" and "props r \<le> best_props"
  shows "fst (select_loop props flatten objs (best_props, r)) \<le> best_props
    \<and> props (snd (select_loop props flatten objs (best_props, r)))
        \<le> fst (select_loop props flatten objs (best_props, r))"
  using assms(2)
proof (induction objs arbitrary: best_props r)
  case Nil
  then show ?case by simp
next
  case (Cons obj objs)
  show ?case
  proof (cases "props obj < best_props")
    case True
    have "props (flatten obj) \<le> props obj" using assms(1) by simp
    from Cons.IH [OF this] True show ?thesis by simp
  next
    case False
    with Cons.IH [OF Cons.prems] show ?thesis by simp
  qed
qed

lemma rep_select_representation:
  assumes "\<forall>obj. props (flatten obj) \<le> props obj"
  shows "props (rep (select_representation props flatten b)) \<le> props (rep b)"
  using select_loop_bound [OF assms, of "rep b" "props (rep b)" "bank b @ proc_q b"]
  by (simp add: select_representation_def)

lemma rep_process_item: "rep (process_item flatten decomposition b) = rep b"
  by (simp add: process_item_def Let_def split: list.splits)

lemma rep_batch_item:
  assumes "\<forall>obj. props (flatten obj) \<le> props obj"
  shows "props (rep (batch_item props flatten decomposition b)) \<le> props (rep b)"
  using rep_select_representation [OF assms, of "process_item flatten decomposition b"]
  by (simp add: batch_item_def rep_process_item)

lemma rep_batch_loop:
  "\<forall>obj. props (flatten obj) \<le> props obj \<Longrightarrow>
   props (rep (snd (batch_loop props flatten decomposition batch ct b))) \<le> props (rep b)"
proof (induction props flatten decomposition batch ct b rule: batch_loop.induct)
  case (1 props flatten decomposition batch ct b)
  show ?case
  proof (cases "proc_q b \<noteq> [] \<and> ct < batch")
    case True
    have "props (rep (snd (batch_loop props flatten decomposition batch (ct + 1)
            (batch_item props flatten decomposition b))))
          \<le> props (rep (batch_item props flatten decomposition b))"
      using "1.IH" [OF True "1.prems"] .
    also have "\<dots> \<le> props (rep b)"
      using rep_batch_item [OF "1.prems"] .
    finally show ?thesis
      using True by (subst batch_loop.simps) simp
  next
    case False
    then show ?thesis by (subst batch_loop.simps) auto
  qed
qed

lemma rep_decompose_rounds:
  assumes "\<forall>obj. props (flatten obj) \<le> props obj"
  shows "props (rep (decompose_rounds props flatten decomposition batch n b)) \<le> props (rep b)"
proof (induction n arbitrary: b)
  case 0
  show ?case by simp
next
  case (Suc n)
  let ?b = "batch_decomposition props flatten decomposition batch b"
  have step: "props (rep ?b) \<le> props (rep b)"
    using rep_batch_loop [OF assms] by (simp add: batch_decomposition_def)
  show ?case
  proof (cases "proc_q ?b = []")
    case True
    with step show ?thesis by (simp add: Let_def)
  next
    case False
    have "props (rep (decompose_rounds props flatten decomposition batch n ?b)) \<le> props (rep ?b)"
      using Suc.IH .
    with step False show ?thesis by (simp add: Let_def)
  qed
qed

lemma select_loop_pick:
  "(select_loop props flatten objs (best_props, r) = (best_props, r)
      \<and> (\<forall>other \<in> set objs. best_props \<le> props other))
   \<or> (\<exists>obj \<in> set objs.
         select_loop props flatten objs (best_props, r) = (props obj, flatten obj)
         \<and> props obj < best_props
         \<and> (\<forall>other \<in> set objs. props obj \<le> props other))"
proof (induction objs arbitrary: best_props r)
  case Nil
  show ?case by simp
next
  case (Cons obj objs)
  show ?case
  proof (cases "props obj < best_props")
    case True
    from Cons [of "props obj" "flatten obj"] True show ?thesis
      by (auto intro: order.trans less_imp_le)
  next
    case False
    from Cons [of best_props r] False show ?thesis
      by (auto intro: order.trans less_imp_le)
  qed
qed

lemma rep_select_representation_pick:
  "rep (select_representation props flatten b) = rep b
   \<or> (\<exists>obj \<in> set (bank b @ proc_q b).
         rep (select_representation props flatten b) = flatten obj
         \<and> props obj < props (rep b)
         \<and> (\<forall>other \<in> set (bank b @ proc_q b). props obj \<le> props other))"
  using select_loop_pick [of props flatten "bank b @ proc_q b" "props (rep b)" "rep b"]
  unfolding select_representation_def by auto

lemmas board_eval =
  decompose_def batch_decomposition_def batch_loop.simps batch_item_def process_item_def
  select_representation_def Board_init_def numeral_eq_Suc

text \<open>
  C2 (amended): provided \<open>flatten\<close> never increases \<open>props\<close>, \<open>rep.props\<close> after a
  call of \<open>select_representation\<close>, after a round of \<open>batch_decomposition\<close> and after
  \<open>decompose\<close> is at most its value before, for every Board, batch and max_iter; in
  particular the final \<open>rep.props\<close> is at most the props of the initial root object.
  A call of \<open>select_representation\<close> leaves \<open>rep\<close> as it is, or replaces it by the
  flattened form of a candidate of minimal props whose own props, before flattening, is
  strictly less than the props \<open>rep\<close> had when the call began.
\<close>

theorem decompose_props_non_increasing:
  assumes "\<forall>obj. props (flatten obj) \<le> props obj"
  shows "props (rep (select_representation props flatten b)) \<le> props (rep b)
    \<and> props (rep (batch_decomposition props flatten decomposition batch b)) \<le> props (rep b)
    \<and> props (rep (decompose props flatten decomposition batch max_iter b)) \<le> props (rep b)
    \<and> props (rep (decompose props flatten decomposition batch max_iter (Board_init root_obj)))
        \<le> props root_obj
    \<and> (rep (select_representation props flatten b) = rep b
        \<or> (\<exists>obj \<in> set (bank b @ proc_q b).
              rep (select_representation props flatten b) = flatten obj
              \<and> props obj < props (rep b)
              \<and> (\<forall>other \<in> set (bank b @ proc_q b). props obj \<le> props other)))"
proof -
  have dec: "props (rep (decompose props flatten decomposition batch max_iter b'))
      \<le> props (rep b')" for b'
  proof -
    have "props (rep (decompose props flatten decomposition batch max_iter b'))
        \<le> props (rep (decompose_rounds props flatten decomposition batch (nat max_iter) b'))"
      using rep_select_representation [OF assms] by (simp add: decompose_def)
    also have "\<dots> \<le> props (rep b')"
      using rep_decompose_rounds [OF assms] .
    finally show ?thesis .
  qed
  from dec [of "Board_init root_obj"]
  have "props (rep (decompose props flatten decomposition batch max_iter (Board_init root_obj)))
        \<le> props root_obj"
    by (simp add: Board_init_def)
  with dec [of b] show ?thesis
    using rep_select_representation [OF assms] rep_batch_loop [OF assms]
      rep_select_representation_pick [of props flatten b]
    by (simp add: batch_decomposition_def)
qed

text \<open>
  Objects are numbers that are their own props and flatten to themselves; an object above
  3 decomposes into its two predecessors. From the root 5, with batches of 2 and at most
  3 rounds, the representation ends at 2.
\<close>

theorem decompose_props_non_increasing_witness:
  "(\<forall>obj :: int. id (id obj) \<le> id obj)
   \<and> rep (decompose id id (\<lambda>obj. if 3 < obj then [obj - 1, obj - 2] else []) 2 3
        (Board_init (5 :: int))) = 2
   \<and> id (rep (decompose id id (\<lambda>obj. if 3 < obj then [obj - 1, obj - 2] else []) 2 3
        (Board_init (5 :: int)))) \<le> id 5"
  using decompose_props_non_increasing [of id id "Board_init (5 :: int)"
      "\<lambda>obj. if 3 < obj then [obj - 1, obj - 2] else []" 2 3 5]
  by (simp add: board_eval)

text \<open>
  C2 as stated fails. With a \<open>flatten\<close> that adds 100 to the props, the root 10
  decomposes into a candidate of props 1, which is selected and flattened: the final
  \<open>rep.props\<close> is 101. And a candidate is compared with \<open>best_props\<close>, not with the props
  of the current \<open>rep\<close>: when the candidate of props 5 flattens to props 0, the next
  candidate of props 4 still replaces it.
\<close>

theorem decompose_props_counterexample:
  "rep (decompose id (\<lambda>n. n + 100) (\<lambda>obj. if obj = 10 then [1] else []) 10 10
        (Board_init (10 :: int))) = 101
   \<and> \<not> id (rep (decompose id (\<lambda>n. n + 100) (\<lambda>obj. if obj = 10 then [1] else []) 10 10
        (Board_init (10 :: int)))) \<le> id (rep (Board_init (10 :: int)))
   \<and> select_loop id (\<lambda>n. if n = 5 then 0 else n) [5] (10, 10 :: int) = (5, 0)
   \<and> select_loop id (\<lambda>n. if n = 5 then 0 else n) [5, 4] (10, 10 :: int) = (4, 4)"
  by (simp add: board_eval)

subsection \<open>One round of batch decomposition\<close>

lemma proc_q_select_representation [simp]:
  "proc_q (select_representation props flatten b) = proc_q b"
  by (simp add: select_representation_def)

lemma bank_select_representation [simp]:
  "bank (select_representation props flatten b) = bank b"
  by (simp add: select_representation_def)

lemma batch_item_pop:
  assumes "proc_q b = obj # rest"
  shows "proc_q (batch_item props flatten decomposition b) = rest @ decomposition obj"
    and "bank (batch_item props flatten decomposition b)
         = bank b @ (if decomposition obj = [] then [flatten obj] else [])"
  using assms by (simp_all add: batch_item_def process_item_def Let_def)

lemma batch_loop_trace:
  "\<exists>popped.
     fst (batch_loop props flatten decomposition batch ct b) = ct + int (length popped)
     \<and> int (length popped) \<le> max 0 (batch - ct)
     \<and> proc_q b @ concat (map decomposition popped)
         = popped @ proc_q (snd (batch_loop props flatten decomposition batch ct b))
     \<and> bank (snd (batch_loop props flatten decomposition batch ct b))
         = bank b @ map flatten (filter (\<lambda>obj. decomposition obj = []) popped)
     \<and> snd (batch_loop props flatten decomposition batch ct b)
         = (batch_item props flatten decomposition ^^ length popped) b
     \<and> (proc_q (snd (batch_loop props flatten decomposition batch ct b)) = []
          \<or> batch \<le> ct + int (length popped))"
proof (induction props flatten decomposition batch ct b rule: batch_loop.induct)
  case (1 props flatten decomposition batch ct b)
  show ?case
  proof (cases "proc_q b \<noteq> [] \<and> ct < batch")
    case False
    have "batch_loop props flatten decomposition batch ct b = (ct, b)"
      using False by (subst batch_loop.simps) auto
    with False show ?thesis
      by (intro exI [of _ "[]"]) auto
  next
    case True
    then obtain obj rest where q: "proc_q b = obj # rest"
      by (cases "proc_q b") auto
    let ?b = "batch_item props flatten decomposition b"
    have unfold: "batch_loop props flatten decomposition batch ct b
        = batch_loop props flatten decomposition batch (ct + 1) ?b"
      using True by (subst batch_loop.simps) simp
    from "1.IH" [OF True] obtain popped where
      n: "fst (batch_loop props flatten decomposition batch (ct + 1) ?b) = ct + 1 + int (length popped)"
      and le: "int (length popped) \<le> max 0 (batch - (ct + 1))"
      and fifo: "proc_q ?b @ concat (map decomposition popped)
         = popped @ proc_q (snd (batch_loop props flatten decomposition batch (ct + 1) ?b))"
      and bk: "bank (snd (batch_loop props flatten decomposition batch (ct + 1) ?b))
         = bank ?b @ map flatten (filter (\<lambda>obj. decomposition obj = []) popped)"
      and it: "snd (batch_loop props flatten decomposition batch (ct + 1) ?b)
         = (batch_item props flatten decomposition ^^ length popped) ?b"
      and stop: "proc_q (snd (batch_loop props flatten decomposition batch (ct + 1) ?b)) = []
          \<or> batch \<le> ct + 1 + int (length popped)"
      by blast
    show ?thesis
    proof (intro exI [of _ "obj # popped"] conjI)
      show "fst (batch_loop props flatten decomposition batch ct b) = ct + int (length (obj # popped))"
        using n unfold by simp
      show "int (length (obj # popped)) \<le> max 0 (batch - ct)"
        using le True by simp
      show "proc_q b @ concat (map decomposition (obj # popped))
         = (obj # popped) @ proc_q (snd (batch_loop props flatten decomposition batch ct b))"
        using fifo q unfold by (simp add: batch_item_pop [OF q])
      show "bank (snd (batch_loop props flatten decomposition batch ct b))
         = bank b @ map flatten (filter (\<lambda>obj. decomposition obj = []) (obj # popped))"
        using bk unfold by (simp add: batch_item_pop [OF q])
      show "snd (batch_loop props flatten decomposition batch ct b)
         = (batch_item props flatten decomposition ^^ length (obj # popped)) b"
        using it unfold by (simp add: funpow_swap1)
      show "proc_q (snd (batch_loop props flatten decomposition batch ct b)) = []
          \<or> batch \<le> ct + int (length (obj # popped))"
        using stop unfold by auto
    qed
  qed
qed

text \<open>
  C7: a call of \<open>batch_decomposition\<close> pops a list \<open>popped\<close> of at most \<open>batch\<close> objects.
  They leave the queue at the front and in order, the candidates of each being appended
  at the back: the old queue followed by all candidates is \<open>popped\<close> followed by the new
  queue. The bank grows by the flattened popped objects that yielded no candidates, in
  order. The Board after the call is the result of \<open>select_representation\<close> after the
  processing of each popped item, and the loop ends only on an empty queue or after
  \<open>batch\<close> items.
\<close>

theorem batch_decomposition_fifo:
  "\<exists>popped.
     int (length popped) \<le> max 0 batch
     \<and> proc_q b @ concat (map decomposition popped)
         = popped @ proc_q (batch_decomposition props flatten decomposition batch b)
     \<and> bank (batch_decomposition props flatten decomposition batch b)
         = bank b @ map flatten (filter (\<lambda>obj. decomposition obj = []) popped)
     \<and> batch_decomposition props flatten decomposition batch b
         = ((\<lambda>b. select_representation props flatten (process_item flatten decomposition b))
             ^^ length popped) b
     \<and> (proc_q (batch_decomposition props flatten decomposition batch b) = []
          \<or> batch \<le> int (length popped))"
proof -
  have eq: "batch_item props flatten decomposition
      = (\<lambda>b. select_representation props flatten (process_item flatten decomposition b))"
    by (rule ext) (simp add: batch_item_def)
  from batch_loop_trace [of props flatten decomposition batch 0 b]
  show ?thesis
    unfolding batch_decomposition_def eq by auto
qed

subsection \<open>The closest candidate\<close>

lemma closest_loop_snoc:
  "closest_loop dist_of mk m (xs @ [s])
     = (if dist_of (mk s) < dist_of (closest_loop dist_of mk m xs) then mk s
        else closest_loop dist_of mk m xs)"
  by (induction xs arbitrary: m) (simp_all add: Let_def)

lemma closest_loop_first_min:
  "\<exists>i\<le>length xs.
     closest_loop dist_of mk m xs = (m # map mk xs) ! i
     \<and> (\<forall>j\<le>length xs. dist_of ((m # map mk xs) ! i) \<le> dist_of ((m # map mk xs) ! j))
     \<and> (\<forall>j<i. dist_of ((m # map mk xs) ! i) < dist_of ((m # map mk xs) ! j))"
proof (induction xs rule: rev_induct)
  case Nil
  show ?case by simp
next
  case (snoc s xs)
  let ?all = "m # map mk xs"
  let ?all' = "m # map mk (xs @ [s])"
  from snoc obtain i where i: "i \<le> length xs"
    and r: "closest_loop dist_of mk m xs = ?all ! i"
    and least: "\<forall>j\<le>length xs. dist_of (?all ! i) \<le> dist_of (?all ! j)"
    and first: "\<forall>j<i. dist_of (?all ! i) < dist_of (?all ! j)"
    by blast
  have old: "?all' ! j = ?all ! j" if "j \<le> length xs" for j
    using that by (cases j) (simp_all add: nth_append)
  have new: "?all' ! Suc (length xs) = mk s"
    by (simp add: nth_append)
  show ?case
  proof (cases "dist_of (mk s) < dist_of (closest_loop dist_of mk m xs)")
    case True
    have "\<forall>j\<le>length (xs @ [s]). dist_of (mk s) \<le> dist_of (?all' ! j)"
    proof (intro allI impI)
      fix j assume "j \<le> length (xs @ [s])"
      then consider "j \<le> length xs" | "j = Suc (length xs)" by force
      then show "dist_of (mk s) \<le> dist_of (?all' ! j)"
      proof cases
        case 1
        with least True r old [OF 1] show ?thesis by force
      next
        case 2
        with new show ?thesis by simp
      qed
    qed
    moreover have "\<forall>j<Suc (length xs). dist_of (mk s) < dist_of (?all' ! j)"
    proof (intro allI impI)
      fix j assume "j < Suc (length xs)"
      then have j: "j \<le> length xs" by simp
      with least True r old [OF j] show "dist_of (mk s) < dist_of (?all' ! j)" by force
    qed
    ultimately show ?thesis
      using True new by (intro exI [of _ "Suc (length xs)"]) (simp add: closest_loop_snoc)
  next
    case False
    have "\<forall>j\<le>length (xs @ [s]). dist_of (?all' ! i) \<le> dist_of (?all' ! j)"
    proof (intro allI impI)
      fix j assume "j \<le> length (xs @ [s])"
      then consider "j \<le> length xs" | "j = Suc (length xs)" by force
      then show "dist_of (?all' ! i) \<le> dist_of (?all' ! j)"
      proof cases
        case 1
        with least old [OF 1] old [OF i] show ?thesis by simp
      next
        case 2
        with new False r old [OF i] show ?thesis by simp
      qed
    qed
    moreover have "\<forall>j<i. dist_of (?all' ! i) < dist_of (?all' ! j)"
    proof (intro allI impI)
      fix j assume "j < i"
      with i have j: "j \<le> length xs" by simp
      from first \<open>j < i\<close> old [OF j] old [OF i] show "dist_of (?all' ! i) < dist_of (?all' ! j)"
        by simp
    qed
    moreover have "closest_loop dist_of mk m (xs @ [s]) = ?all' ! i"
      using False r old [OF i] by (simp add: closest_loop_snoc)
    moreover have "i \<le> length (xs @ [s])"
      using i by simp
    ultimately show ?thesis by blast
  qed
qed

text \<open>
  C6: with a threshold, \<open>find_closest\<close> returns \<open>None\<close> exactly when the inventory is
  empty or every candidate is farther than the threshold (the minimum exceeds it);
  otherwise it returns the ObjectDelta of a candidate of minimal distance, the first one
  among those of minimal distance.
\<close>

theorem find_closest_first_minimum:
  "(find_closest ObjectDelta dist_of obj inventory (Some threshold) = None
      \<longleftrightarrow> inventory = []
          \<or> (\<forall>source \<in> set inventory. threshold < real_of_int (dist_of (ObjectDelta obj source))))
   \<and> (\<forall>match. find_closest ObjectDelta dist_of obj inventory (Some threshold) = Some match \<longrightarrow>
        (\<exists>i<length inventory.
           match = ObjectDelta obj (inventory ! i)
           \<and> real_of_int (dist_of match) \<le> threshold
           \<and> (\<forall>j<length inventory. dist_of match \<le> dist_of (ObjectDelta obj (inventory ! j)))
           \<and> (\<forall>j<i. dist_of match < dist_of (ObjectDelta obj (inventory ! j)))))"
proof (cases inventory)
  case Nil
  then show ?thesis by (simp add: find_closest_def)
next
  case (Cons first rest)
  let ?m = "closest_loop dist_of (ObjectDelta obj) (ObjectDelta obj first) rest"
  have all: "ObjectDelta obj first # map (ObjectDelta obj) rest = map (ObjectDelta obj) inventory"
    using Cons by simp
  let ?all = "ObjectDelta obj first # map (ObjectDelta obj) rest"
  have nth: "?all ! j = ObjectDelta obj (inventory ! j)" if "j < length inventory" for j
  proof -
    have "?all ! j = map (ObjectDelta obj) inventory ! j"
      by (simp only: all)
    also have "\<dots> = ObjectDelta obj (inventory ! j)"
      using that by (rule nth_map)
    finally show ?thesis .
  qed
  have len: "j \<le> length rest \<longleftrightarrow> j < length inventory" for j
    using Cons by auto
  from closest_loop_first_min [of rest dist_of "ObjectDelta obj" "ObjectDelta obj first"]
  obtain i where i0: "i \<le> length rest"
    and r0: "?m = ?all ! i"
    and least0: "\<forall>j\<le>length rest. dist_of (?all ! i) \<le> dist_of (?all ! j)"
    and first0: "\<forall>j<i. dist_of (?all ! i) < dist_of (?all ! j)"
    by blast
  from i0 have i: "i < length inventory" by (simp only: len)
  from r0 have r: "?m = ObjectDelta obj (inventory ! i)" by (simp only: nth [OF i])
  have least: "\<forall>j<length inventory. dist_of ?m \<le> dist_of (ObjectDelta obj (inventory ! j))"
    using least0 r0 nth len by metis
  have first: "\<forall>j<i. dist_of ?m < dist_of (ObjectDelta obj (inventory ! j))"
  proof (intro allI impI)
    fix j assume "j < i"
    with i have "j < length inventory" by simp
    from nth [OF this] first0 \<open>j < i\<close> r0 show "dist_of ?m < dist_of (ObjectDelta obj (inventory ! j))"
      by metis
  qed
  have exceeds: "threshold < real_of_int (dist_of ?m)
      \<longleftrightarrow> (\<forall>source \<in> set inventory. threshold < real_of_int (dist_of (ObjectDelta obj source)))"
  proof
    assume a: "threshold < real_of_int (dist_of ?m)"
    show "\<forall>source \<in> set inventory. threshold < real_of_int (dist_of (ObjectDelta obj source))"
    proof
      fix source assume "source \<in> set inventory"
      then obtain j where "j < length inventory" "inventory ! j = source"
        by (auto simp add: in_set_conv_nth)
      with least have "dist_of ?m \<le> dist_of (ObjectDelta obj source)" by auto
      with a show "threshold < real_of_int (dist_of (ObjectDelta obj source))" by simp
    qed
  next
    assume "\<forall>source \<in> set inventory. threshold < real_of_int (dist_of (ObjectDelta obj source))"
    with i r show "threshold < real_of_int (dist_of ?m)" by simp
  qed
  have res: "find_closest ObjectDelta dist_of obj inventory (Some threshold)
      = (if threshold < real_of_int (dist_of ?m) then None else Some ?m)"
    using Cons by (simp add: find_closest_def Let_def)
  show ?thesis
  proof (intro conjI allI impI)
    show "find_closest ObjectDelta dist_of obj inventory (Some threshold) = None
      \<longleftrightarrow> inventory = []
          \<or> (\<forall>source \<in> set inventory. threshold < real_of_int (dist_of (ObjectDelta obj source)))"
      using res exceeds Cons by simp
  next
    fix match
    assume "find_closest ObjectDelta dist_of obj inventory (Some threshold) = Some match"
    with res have m: "match = ?m" and th: "\<not> threshold < real_of_int (dist_of ?m)"
      by (auto split: if_splits)
    show "\<exists>i<length inventory.
           match = ObjectDelta obj (inventory ! i)
           \<and> real_of_int (dist_of match) \<le> threshold
           \<and> (\<forall>j<length inventory. dist_of match \<le> dist_of (ObjectDelta obj (inventory ! j)))
           \<and> (\<forall>j<i. dist_of match < dist_of (ObjectDelta obj (inventory ! j)))"
      using i r least first th unfolding m by (intro exI [of _ i]) simp
  qed
qed

text \<open>
  The delta of two numbers is the pair, its distance their difference. From 5, the
  candidates 4 and 6 tie at distance 1 and the first wins; 1 and 9 alone are beyond 3/2.
\<close>

theorem find_closest_first_minimum_witness:
  "find_closest (\<lambda>obj source. (obj, source)) (\<lambda>(obj, source). \<bar>obj - source\<bar>) 5
       [1, 4, 6, 9 :: int] (Some (3 / 2)) = Some (5, 4)
   \<and> find_closest (\<lambda>obj source. (obj, source)) (\<lambda>(obj, source). \<bar>obj - source\<bar>) 5
       [1, 9 :: int] (Some (3 / 2)) = None
   \<and> (\<exists>i<length [1, 4, 6, 9 :: int]. (5, 4) = (5 :: int, [1, 4, 6, 9] ! i)
        \<and> real_of_int \<bar>5 - 4\<bar> \<le> 3 / 2)"
proof -
  have s: "find_closest (\<lambda>obj source. (obj, source)) (\<lambda>(obj, source). \<bar>obj - source\<bar>) 5
       [1, 4, 6, 9 :: int] (Some (3 / 2)) = Some (5, 4)"
    by (simp add: find_closest_def)
  from find_closest_first_minimum [of "\<lambda>obj source. (obj, source)"
      "\<lambda>(obj, source). \<bar>obj - source\<bar>" 5 "[1, 4, 6, 9 :: int]" "3 / 2"] s
  have "\<exists>i<length [1, 4, 6, 9 :: int]. (5, 4) = (5 :: int, [1, 4, 6, 9] ! i)
        \<and> real_of_int \<bar>5 - 4\<bar> \<le> 3 / 2"
    by auto
  moreover have "find_closest (\<lambda>obj source. (obj, source)) (\<lambda>(obj, source). \<bar>obj - source\<bar>) 5
       [1, 9 :: int] (Some (3 / 2)) = None"
    using find_closest_first_minimum [of "\<lambda>obj source. (obj, source)"
      "\<lambda>(obj, source). \<bar>obj - source\<bar>" 5 "[1, 9 :: int]" "3 / 2"]
    by simp
  ultimately show ?thesis using s by blast
qed

section \<open>Properties of the template\<close>

lemma get_base_loop_snoc:
  "get_base_loop base (p @ [i]) (node, warnings)
     = (case get_base_loop base p (node, warnings) of
          (node', warnings') \<Rightarrow>
            (case list_item (children node') i of
               Some child \<Rightarrow> (child, warnings')
             | None \<Rightarrow> (node', warnings' @ [base])))"
  by (induction p arbitrary: node warnings) (simp_all split: option.splits)

lemma get_base_loop_base:
  "fst (get_base_loop base p (node, warnings)) = fst (get_base_loop base' p (node, []))
   \<and> length (snd (get_base_loop base p (node, warnings)))
       = length warnings + length (snd (get_base_loop base' p (node, [])))"
proof (induction p arbitrary: node warnings base base')
  case Nil
  show ?case by simp
next
  case (Cons i p)
  show ?case
  proof (cases "list_item (children node) i")
    case None
    from Cons [of base node "warnings @ [base]" base'] Cons [of base' node "[base']" base']
    show ?thesis using None by simp
  next
    case (Some child)
    from Cons [of base child warnings base'] show ?thesis using Some by simp
  qed
qed

lemma get_base_as_loop:
  "fst (get_base p r) = fst (get_base_loop [] p (r, []))
   \<and> length (snd (get_base p r)) = length (snd (get_base_loop [] p (r, [])))"
  using get_base_loop_base [of p p r "[]" "[]"] by (simp add: get_base_def)

text \<open>
  C8 (amended): \<open>get_base\<close> never raises. On the empty path it returns the root without
  a warning. For a path \<open>p\<close> extended by an index \<open>i\<close> it returns the child \<open>i\<close> (in
  Python's indexing) of the node it returns for \<open>p\<close> when \<open>i\<close> is in range there, and
  otherwise it logs one more warning and returns the node it returns for \<open>p\<close>: an index
  out of range is skipped and the walk goes on with the indices after it.
\<close>

theorem get_base_skips_out_of_range:
  "get_base [] r = (r, [])
   \<and> fst (get_base (p @ [i]) r)
       = (case list_item (children (fst (get_base p r))) i of
            Some child \<Rightarrow> child
          | None \<Rightarrow> fst (get_base p r))
   \<and> length (snd (get_base (p @ [i]) r))
       = length (snd (get_base p r))
         + (case list_item (children (fst (get_base p r))) i of Some child \<Rightarrow> 0 | None \<Rightarrow> 1)"
proof -
  obtain n w where nw: "get_base_loop [] p (r, []) = (n, w)"
    by (cases "get_base_loop [] p (r, [])")
  have p: "fst (get_base p r) = n" "length (snd (get_base p r)) = length w"
    using get_base_as_loop [of p r] nw by simp_all
  have "fst (get_base (p @ [i]) r) = fst (get_base_loop [] (p @ [i]) (r, []))"
    "length (snd (get_base (p @ [i]) r)) = length (snd (get_base_loop [] (p @ [i]) (r, [])))"
    using get_base_as_loop [of "p @ [i]" r] by simp_all
  then show ?thesis
    using p nw by (simp add: get_base_loop_snoc get_base_def split: option.splits)
qed

text \<open>
  C8 as stated fails: on a root with one child and the path (5, 0), the index 5 is out of
  range, so the last node reached along the path is the root; the walk goes on and
  returns the child 0 of the root.
\<close>

theorem get_base_continues_counterexample:
  "list_item (children (StructureDef [] [StructureDef [(''color'', IntVal 1)] []])) 5 = None
   \<and> get_base [5, 0] (StructureDef [] [StructureDef [(''color'', IntVal 1)] []])
       = (StructureDef [(''color'', IntVal 1)] [], [[5, 0]])
   \<and> last_reached [5, 0] (StructureDef [] [StructureDef [(''color'', IntVal 1)] []])
       = StructureDef [] [StructureDef [(''color'', IntVal 1)] []]
   \<and> fst (get_base [5, 0] (StructureDef [] [StructureDef [(''color'', IntVal 1)] []]))
       \<noteq> last_reached [5, 0] (StructureDef [] [StructureDef [(''color'', IntVal 1)] []])"
  by (simp add: get_base_def list_item_def)

end
